theory Spec2Isabelle
  imports Main "HOL-Library.Char_ord" "HOL-Library.List_Lexorder" "HOL-Library.Option_ord"
begin

section \<open>Data model of termsandconditions/models.py\<close>

text \<open>
  Timestamps are points of a linear order, modelled as integers (for instance microseconds
  since the epoch). A nullable column is an \<open>option\<close>; the order on \<open>int option\<close> puts
  \<open>None\<close> below every \<open>Some d\<close>.
\<close>

type_synonym datetime = int

text \<open>
  One row of the table behind \<open>class TermsAndConditions\<close>. The primary key \<open>id\<close> is
  called \<open>tc_id\<close> and the column \<open>text\<close> is called \<open>text_body\<close>; \<open>version_number\<close>
  (a decimal with two places) is counted in hundredths.
\<close>

record TermsAndConditions =
  tc_id :: nat
  slug :: string
  name :: string
  version_number :: int
  text_body :: "string option"
  info :: "string option"
  date_active :: "datetime option"
  date_created :: datetime

text \<open>
  One row of the table behind \<open>class UserTermsAndConditions\<close>; \<open>user\<close> and \<open>terms\<close>
  hold the primary keys of the rows they refer to, \<open>ut_id\<close> is the row's own primary key.
\<close>

record UserTermsAndConditions =
  ut_id :: nat
  user :: nat
  terms :: nat
  ip_address :: "string option"
  date_accepted :: datetime

text \<open>
  The relational store: either the two tables do not exist yet (the first
  makemigrations/migrate run the source's comments speak of), or they hold their rows in
  table order.
\<close>

datatype database =
    NoTables
  | Tables "TermsAndConditions list" "UserTermsAndConditions list"

text \<open>The exceptions the source names in its \<open>except\<close> clauses.\<close>

datatype error = DoesNotExist | MultipleObjectsReturned | ProgrammingError | TypeError

text \<open>
  The user handed to a helper: a row of the user model, given by its primary key, or a
  value that is no model instance (the anonymous user of a request), for which building a
  lookup raises \<open>TypeError\<close>.
\<close>

datatype user_arg = User nat | AnonymousUser

text \<open>
  The Python values that travel through the cache and out of the helpers: \<open>None\<close>, a
  model instance, a list of primary keys, and an evaluated queryset of
  \<open>TermsAndConditions\<close> rows.
\<close>

datatype pyval =
    PyNone
  | PyTerms TermsAndConditions
  | PyIds "nat list"
  | PyQuerySet "TermsAndConditions list"

text \<open>Python's truth value, as \<open>if not x\<close> tests it.\<close>

fun truthy :: "pyval \<Rightarrow> bool" where
  "truthy PyNone = False"
| "truthy (PyTerms t) = True"
| "truthy (PyIds xs) = (xs \<noteq> [])"
| "truthy (PyQuerySet xs) = (xs \<noteq> [])"

datatype level = ERROR | WARNING

text \<open>
  What a helper can change: the process-wide cache (a key-value store with get and set,
  no expiry modelled) and the records written to the logger.
\<close>

record process_state =
  cache :: "string \<rightharpoonup> pyval"
  logged :: "(level \<times> string) list"

definition cache_get :: "process_state \<Rightarrow> string \<Rightarrow> pyval" where
  "cache_get st k = (case cache st k of None \<Rightarrow> PyNone | Some v \<Rightarrow> v)"

definition cache_set :: "process_state \<Rightarrow> string \<Rightarrow> pyval \<Rightarrow> process_state" where
  "cache_set st k v = st\<lparr>cache := (cache st)(k \<mapsto> v)\<rparr>"

definition LOGGER_error :: "process_state \<Rightarrow> string \<Rightarrow> process_state" where
  "LOGGER_error st msg = st\<lparr>logged := logged st @ [(ERROR, msg)]\<rparr>"

definition LOGGER_warning :: "process_state \<Rightarrow> string \<Rightarrow> process_state" where
  "LOGGER_warning st msg = st\<lparr>logged := logged st @ [(WARNING, msg)]\<rparr>"

definition DEFAULT_TERMS_SLUG :: string where
  "DEFAULT_TERMS_SLUG = ''site-terms''"

section \<open>The queries\<close>

text \<open>
  \<open>ORDER BY date_active DESC LIMIT 1\<close> over a non-empty selection: a row of greatest
  \<open>date_active\<close>. Among rows of equal \<open>date_active\<close> the engine decides; the model keeps
  the earliest in table order.
\<close>

fun max_by_date :: "TermsAndConditions \<Rightarrow> TermsAndConditions list \<Rightarrow> TermsAndConditions" where
  "max_by_date b [] = b"
| "max_by_date b (t # ts) = max_by_date (if date_active b < date_active t then t else b) ts"

text \<open>
  \<open>TermsAndConditions.objects.filter(date_active__isnull=False, date_active__lte=now,
  slug=slug).latest('date_active')\<close>.
\<close>

definition latest_active :: "datetime \<Rightarrow> database \<Rightarrow> string \<Rightarrow> error + TermsAndConditions" where
  "latest_active now db s =
     (case db of
        NoTables \<Rightarrow> Inl ProgrammingError
      | Tables ts uts \<Rightarrow>
          (case filter (\<lambda>t. date_active t \<noteq> None \<and> date_active t \<le> Some now \<and> slug t = s) ts of
             [] \<Rightarrow> Inl DoesNotExist
           | c # cs \<Rightarrow> Inr (max_by_date c cs)))"

text \<open>
  The raw query \<open>SELECT id, slug, max(date_active) FROM ... WHERE date_active IS NOT NULL
  AND date_active < now GROUP BY slug ORDER BY slug\<close>. The column \<open>id\<close> is neither
  grouped nor aggregated, so SQL leaves the row it is read from to the engine:
  \<open>bare_id\<close> is the engine's choice, from the rows of one group to the \<open>id\<close> reported
  for it. The source reads only \<open>id\<close> from each result row, so the model returns the
  ids, one per group, in the order of the slugs. An engine that refuses a bare column
  altogether answers this query with \<open>ProgrammingError\<close>, as a store without tables
  does; it is not modelled apart.
\<close>

definition raw_active_ids ::
  "(TermsAndConditions list \<Rightarrow> nat) \<Rightarrow> datetime \<Rightarrow> database \<Rightarrow> error + nat list" where
  "raw_active_ids bare_id now db =
     (case db of
        NoTables \<Rightarrow> Inl ProgrammingError
      | Tables ts uts \<Rightarrow>
          (let act = filter (\<lambda>t. date_active t \<noteq> None \<and> date_active t < Some now) ts
           in Inr (map (\<lambda>s. bare_id (filter (\<lambda>t. slug t = s) act))
                       (sort (remdups (map slug act))))))"

text \<open>
  SQLite's rule for a bare column next to a single \<open>max()\<close>: it is read from a row that
  attains the maximum.
\<close>

definition sqlite_bare_id :: "TermsAndConditions list \<Rightarrow> nat" where
  "sqlite_bare_id g = (case g of [] \<Rightarrow> 0 | t # ts \<Rightarrow> tc_id (max_by_date t ts))"

text \<open>An engine that reads a bare column from the first row of the group.\<close>

definition first_row_bare_id :: "TermsAndConditions list \<Rightarrow> nat" where
  "first_row_bare_id g = (case g of [] \<Rightarrow> 0 | t # ts \<Rightarrow> tc_id t)"

text \<open>
  The primary keys a value stands for on the right of \<open>id__in=\<close>: a list is taken as it
  is, a queryset by the keys of its rows; \<open>None\<close> and a single model instance are not
  iterable.
\<close>

fun id_in_arg :: "pyval \<Rightarrow> error + nat list" where
  "id_in_arg (PyIds ids) = Inr ids"
| "id_in_arg (PyQuerySet rows) = Inr (map tc_id rows)"
| "id_in_arg (PyTerms t) = Inl TypeError"
| "id_in_arg PyNone = Inl TypeError"

text \<open>
  Evaluating \<open>TermsAndConditions.objects.filter(id__in=ids).order_by('slug')\<close>. With no
  ids the ORM answers with the empty result and sends no query.
\<close>

definition filter_id_in :: "database \<Rightarrow> nat list \<Rightarrow> error + TermsAndConditions list" where
  "filter_id_in db ids =
     (if ids = [] then Inr []
      else case db of
             NoTables \<Rightarrow> Inl ProgrammingError
           | Tables ts uts \<Rightarrow> Inr (sort_key slug (filter (\<lambda>t. tc_id t \<in> set ids) ts)))"

text \<open>
  Evaluating \<open>TermsAndConditions.objects.filter(id__in=ids).exclude(userterms__in=
  UserTermsAndConditions.objects.filter(user=u).values_list('id')).order_by('slug')\<close>: a
  row is excluded when some acceptance row refers to it and has its primary key among
  those of the acceptance rows of user \<open>u\<close>.
\<close>

definition filter_id_in_exclude_userterms ::
  "database \<Rightarrow> nat list \<Rightarrow> nat \<Rightarrow> error + TermsAndConditions list" where
  "filter_id_in_exclude_userterms db ids u =
     (if ids = [] then Inr []
      else case db of
             NoTables \<Rightarrow> Inl ProgrammingError
           | Tables ts uts \<Rightarrow>
               (let mine = map ut_id (filter (\<lambda>r. user r = u) uts)
                in Inr (sort_key slug
                     (filter (\<lambda>t. tc_id t \<in> set ids \<and>
                                  \<not> (\<exists>r \<in> set uts. terms r = tc_id t \<and> ut_id r \<in> set mine)) ts))))"

text \<open>
  \<open>UserTermsAndConditions.objects.get(user=user, terms=terms)\<close>. Building the lookup
  comes first and raises \<open>TypeError\<close> for a user or a \<open>terms\<close> value that is no model
  instance; \<open>terms=None\<close> asks for rows whose \<open>terms\<close> column is null, and there are none;
  then the query runs and \<open>get\<close> wants exactly one row.
\<close>

fun objects_get :: "database \<Rightarrow> user_arg \<Rightarrow> pyval \<Rightarrow> error + UserTermsAndConditions" where
  "objects_get db AnonymousUser v = Inl TypeError"
| "objects_get db (User u) (PyIds ids) = Inl TypeError"
| "objects_get db (User u) (PyQuerySet rows) = Inl TypeError"
| "objects_get NoTables (User u) v = Inl ProgrammingError"
| "objects_get (Tables ts uts) (User u) PyNone = Inl DoesNotExist"
| "objects_get (Tables ts uts) (User u) (PyTerms t) =
     (case filter (\<lambda>r. user r = u \<and> terms r = tc_id t) uts of
        [] \<Rightarrow> Inl DoesNotExist
      | [r] \<Rightarrow> Inr r
      | r # r' # rs \<Rightarrow> Inl MultipleObjectsReturned)"

section \<open>The helpers of class TermsAndConditions\<close>

text \<open>
  Every helper takes the current time (\<open>timezone.now()\<close>), the store and the process
  state, and returns its result, or the exception that leaves it, with the new state.
\<close>

text \<open>\<open>get_active(slug)\<close>, lines 60 to 76 of models.py.\<close>

definition get_active ::
  "datetime \<Rightarrow> database \<Rightarrow> process_state \<Rightarrow> string \<Rightarrow> (error + pyval) \<times> process_state" where
  "get_active now db st s =
     (let active_terms = cache_get st (''tandc.active_terms_'' @ s)
      in if \<not> truthy active_terms then
           (case latest_active now db s of
              Inr t \<Rightarrow> (Inr (PyTerms t), cache_set st (''tandc.active_terms_'' @ s) (PyTerms t))
            | Inl DoesNotExist \<Rightarrow>
                (Inr PyNone,
                 LOGGER_error st ''Requested Terms and Conditions that Have Not Been Created.'')
            | Inl e \<Rightarrow> (Inl e, st))
         else (Inr active_terms, st))"

text \<open>
  \<open>get_active_terms_ids()\<close>, lines 78 to 99. The raw query runs when the loop starts to
  read it; if it raises there, the list is still empty.
\<close>

definition get_active_terms_ids ::
  "(TermsAndConditions list \<Rightarrow> nat) \<Rightarrow> datetime \<Rightarrow> database \<Rightarrow> process_state
     \<Rightarrow> (error + pyval) \<times> process_state" where
  "get_active_terms_ids bare_id now db st =
     (let active_terms_ids = cache_get st ''tandc.active_terms_ids''
      in if \<not> truthy active_terms_ids then
           (case raw_active_ids bare_id now db of
              Inr ids \<Rightarrow> (Inr (PyIds ids), cache_set st ''tandc.active_terms_ids'' (PyIds ids))
            | Inl ProgrammingError \<Rightarrow>
                (Inr (PyIds []),
                 LOGGER_warning st
                   ''Unable to find active terms ids because terms and conditions tables not initialized.'')
            | Inl e \<Rightarrow> (Inl e, st))
         else (Inr active_terms_ids, st))"

text \<open>
  \<open>get_active_terms_list()\<close>, lines 101 to 116. The queryset is evaluated when
  \<open>cache.set\<close> stores it, inside the \<open>try\<close>. When that evaluation raises \<open>ProgrammingError\<close> the source logs and returns
  the queryset unevaluated; it raises again as soon as the caller reads it, which the model
  reports as the helper's result.
\<close>

definition get_active_terms_list ::
  "(TermsAndConditions list \<Rightarrow> nat) \<Rightarrow> datetime \<Rightarrow> database \<Rightarrow> process_state
     \<Rightarrow> (error + pyval) \<times> process_state" where
  "get_active_terms_list bare_id now db st =
     (let active_terms_list = cache_get st ''tandc.active_terms_list''
      in if \<not> truthy active_terms_list then
           (case get_active_terms_ids bare_id now db st of
              (Inl ProgrammingError, st1) \<Rightarrow>
                (Inr PyNone,
                 LOGGER_warning st1
                   ''Unable to find active terms list because terms and conditions tables not initialized.'')
            | (Inl e, st1) \<Rightarrow> (Inl e, st1)
            | (Inr v, st1) \<Rightarrow>
                (case id_in_arg v of
                   Inl e \<Rightarrow> (Inl e, st1)
                 | Inr ids \<Rightarrow>
                     (case filter_id_in db ids of
                        Inr rows \<Rightarrow>
                          (Inr (PyQuerySet rows),
                           cache_set st1 ''tandc.active_terms_list'' (PyQuerySet rows))
                      | Inl ProgrammingError \<Rightarrow>
                          (Inl ProgrammingError,
                           LOGGER_warning st1
                             ''Unable to find active terms list because terms and conditions tables not initialized.'')
                      | Inl e \<Rightarrow> (Inl e, st1))))
         else (Inr active_terms_list, st))"

text \<open>
  \<open>agreed_to_latest(user, slug)\<close>, lines 118 to 130. The call of \<open>get_active\<close> stands
  inside the \<open>try\<close>, so the handlers see its exceptions too.
\<close>

definition agreed_to_latest ::
  "datetime \<Rightarrow> database \<Rightarrow> process_state \<Rightarrow> user_arg \<Rightarrow> string
     \<Rightarrow> (error + bool) \<times> process_state" where
  "agreed_to_latest now db st u s =
     (case get_active now db st s of
        (r, st1) \<Rightarrow>
          (case (case r of Inl e \<Rightarrow> Inl e | Inr v \<Rightarrow> objects_get db u v) of
             Inr row \<Rightarrow> (Inr True, st1)
           | Inl MultipleObjectsReturned \<Rightarrow> (Inr True, st1)
           | Inl DoesNotExist \<Rightarrow> (Inr False, st1)
           | Inl TypeError \<Rightarrow> (Inr False, st1)
           | Inl e \<Rightarrow> (Inl e, st1)))"

text \<open>
  \<open>get_active_terms_not_agreed_to(user)\<close>, lines 132 to 147. Building the querysets
  raises \<open>TypeError\<close> for ids or a user that cannot be used in a lookup; the query itself
  runs when \<open>cache.set\<close> stores the queryset.
\<close>

definition get_active_terms_not_agreed_to ::
  "(TermsAndConditions list \<Rightarrow> nat) \<Rightarrow> datetime \<Rightarrow> database \<Rightarrow> process_state \<Rightarrow> user_arg
     \<Rightarrow> (error + pyval) \<times> process_state" where
  "get_active_terms_not_agreed_to bare_id now db st u =
     (let not_agreed_terms = cache_get st ''tandc_not_agreed_terms''
      in if \<not> truthy not_agreed_terms then
           (case get_active_terms_ids bare_id now db st of
              (Inl TypeError, st1) \<Rightarrow> (Inr PyNone, st1)
            | (Inl DoesNotExist, st1) \<Rightarrow> (Inr PyNone, st1)
            | (Inl e, st1) \<Rightarrow> (Inl e, st1)
            | (Inr v, st1) \<Rightarrow>
                (case id_in_arg v of
                   Inl e \<Rightarrow> (Inr PyNone, st1)
                 | Inr ids \<Rightarrow>
                     (case u of
                        AnonymousUser \<Rightarrow> (Inr PyNone, st1)
                      | User uid \<Rightarrow>
                          (case filter_id_in_exclude_userterms db ids uid of
                             Inr rows \<Rightarrow>
                               (Inr (PyQuerySet rows),
                                cache_set st1 ''tandc_not_agreed_terms'' (PyQuerySet rows))
                           | Inl TypeError \<Rightarrow> (Inr PyNone, st1)
                           | Inl DoesNotExist \<Rightarrow> (Inr PyNone, st1)
                           | Inl e \<Rightarrow> (Inl e, st1)))))
         else (Inr not_agreed_terms, st))"

text \<open>\<open>agreed_to_terms(user, terms)\<close>, lines 149 to 159.\<close>

definition agreed_to_terms :: "database \<Rightarrow> user_arg \<Rightarrow> pyval \<Rightarrow> error + bool" where
  "agreed_to_terms db u terms_arg =
     (case objects_get db u terms_arg of
        Inr row \<Rightarrow> Inr True
      | Inl DoesNotExist \<Rightarrow> Inr False
      | Inl TypeError \<Rightarrow> Inr False
      | Inl e \<Rightarrow> Inl e)"

section \<open>Invariants, reference definitions and sample data\<close>

text \<open>
  \<open>unique_together = ('user', 'terms')\<close> of \<open>UserTermsAndConditions.Meta\<close>: no two
  acceptance rows share their user and their terms. Without tables there are no rows.
\<close>

fun unique_together :: "database \<Rightarrow> bool" where
  "unique_together NoTables = True"
| "unique_together (Tables ts uts) = distinct (map (\<lambda>r. (user r, terms r)) uts)"

text \<open>
  The composition the specification compares \<open>agreed_to_latest\<close> with:
  \<open>agreed_to_terms(user, get_active(slug))\<close>, the inner call first.
\<close>

definition agreed_to_terms_of_active ::
  "datetime \<Rightarrow> database \<Rightarrow> process_state \<Rightarrow> user_arg \<Rightarrow> string
     \<Rightarrow> (error + bool) \<times> process_state" where
  "agreed_to_terms_of_active now db st u s =
     (case get_active now db st s of
        (Inl e, st1) \<Rightarrow> (Inl e, st1)
      | (Inr v, st1) \<Rightarrow> (agreed_to_terms db u v, st1))"

text \<open>Rows for the worked examples: only key, slug and activation date vary.\<close>

definition mk_terms :: "nat \<Rightarrow> string \<Rightarrow> datetime option \<Rightarrow> TermsAndConditions" where
  "mk_terms i s d =
     \<lparr>tc_id = i, slug = s, name = ''Terms'', version_number = 100, text_body = None,
      info = None, date_active = d, date_created = 0\<rparr>"

definition mk_userterms :: "nat \<Rightarrow> nat \<Rightarrow> nat \<Rightarrow> UserTermsAndConditions" where
  "mk_userterms i u t =
     \<lparr>ut_id = i, user = u, terms = t, ip_address = None, date_accepted = 0\<rparr>"

text \<open>A process that has just started: nothing cached, nothing logged.\<close>

definition fresh_state :: process_state where
  "fresh_state = \<lparr>cache = Map.empty, logged = []\<rparr>"

text \<open>
  A version counts as activated at \<open>now\<close> when its \<open>date_active\<close> is set and not in
  the future.
\<close>

definition activated :: "datetime \<Rightarrow> TermsAndConditions \<Rightarrow> bool" where
  "activated now t = (case date_active t of None \<Rightarrow> False | Some d \<Rightarrow> d \<le> now)"

text \<open>A process whose cache holds an empty value under each of the three fixed keys.\<close>

definition cached_empties :: process_state where
  "cached_empties =
     \<lparr>cache = [''tandc.active_terms_ids'' \<mapsto> PyIds [],
               ''tandc.active_terms_list'' \<mapsto> PyQuerySet [],
               ''tandc_not_agreed_terms'' \<mapsto> PyQuerySet []],
      logged = []\<rparr>"

text \<open>
  The engines for which the bare \<open>id\<close> of the grouped query belongs to a row of the group
  that attains \<open>max(date_active)\<close>.
\<close>

definition reads_max_row :: "(TermsAndConditions list \<Rightarrow> nat) \<Rightarrow> bool" where
  "reads_max_row bare_id =
     (\<forall>g. g \<noteq> [] \<longrightarrow>
        (\<exists>t \<in> set g. bare_id g = tc_id t \<and> (\<forall>t' \<in> set g. date_active t' \<le> date_active t)))"

section \<open>Existence checks\<close>

lemma distinct_filter_le_one:
  "distinct (map f xs) \<Longrightarrow> length (filter (\<lambda>x. f x = k) xs) \<le> 1"
  by (induction xs) (auto simp: filter_empty_conv image_iff)

lemma objects_get_not_multiple:
  assumes "unique_together db"
  shows "objects_get db u v \<noteq> Inl MultipleObjectsReturned"
proof (cases db)
  case NoTables
  then show ?thesis by (cases u; cases v) simp_all
next
  case (Tables ts uts)
  show ?thesis
  proof (cases u)
    case AnonymousUser
    then show ?thesis by simp
  next
    case (User uid)
    show ?thesis
    proof (cases v)
      case (PyTerms t)
      have "length (filter (\<lambda>r. (user r, terms r) = (uid, tc_id t)) uts) \<le> 1"
        using assms Tables by (intro distinct_filter_le_one) simp
      then have "length (filter (\<lambda>r. user r = uid \<and> terms r = tc_id t) uts) \<le> 1"
        by simp
      then show ?thesis using Tables User PyTerms
        by (auto split: list.splits)
    qed (simp_all add: Tables User)
  qed
qed

lemma get_active_error:
  "fst (get_active now db st s) = Inl e \<Longrightarrow> e = ProgrammingError"
  by (auto simp: get_active_def latest_active_def Let_def
           split: if_splits database.splits list.splits sum.splits error.splits)

lemma get_active_Tables_returns:
  "\<exists>v. fst (get_active now (Tables ts uts) st s) = Inr v"
  by (auto simp: get_active_def latest_active_def Let_def split: list.splits)

lemma objects_get_Tables_error:
  "objects_get (Tables ts uts) u v \<noteq> Inl ProgrammingError"
  by (cases u; cases v) (auto split: list.splits)

lemma filter_nonempty_iff: "(filter P xs \<noteq> []) = (\<exists>x \<in> set xs. P x)"
  by (simp add: filter_empty_conv)

lemma agreed_to_latest_iff_row:
  assumes p: "get_active now (Tables ts uts) st s = (Inr (PyTerms t), st2)"
  shows "fst (agreed_to_latest now (Tables ts uts) st (User uid) s) =
        Inr (\<exists>r \<in> set uts. user r = uid \<and> terms r = tc_id t)"
proof (cases "filter (\<lambda>r. user r = uid \<and> terms r = tc_id t) uts")
  case Nil
  then have "\<not> (\<exists>r \<in> set uts. user r = uid \<and> terms r = tc_id t)"
    by (simp add: filter_empty_conv)
  then show ?thesis using Nil by (simp add: agreed_to_latest_def p)
next
  case (Cons a as)
  then have "filter (\<lambda>r. user r = uid \<and> terms r = tc_id t) uts \<noteq> []" by simp
  then have "\<exists>r \<in> set uts. user r = uid \<and> terms r = tc_id t"
    unfolding filter_nonempty_iff .
  then show ?thesis using Cons by (simp add: agreed_to_latest_def p split: list.splits)
qed

text \<open>
  Claim C3. The specification asks that \<open>get_active\<close> return an empty result when the
  tables do not exist yet. The source catches \<open>DoesNotExist\<close> only: on a store without
  tables and with nothing cached the \<open>ProgrammingError\<close> of the query leaves the helper,
  while \<open>get_active_terms_ids\<close> and \<open>get_active_terms_list\<close> catch it.
\<close>

theorem get_active_no_tables_raises:
  "fst (get_active 0 NoTables fresh_state ''site-terms'') = Inl ProgrammingError"
  by (simp add: get_active_def cache_get_def latest_active_def fresh_state_def)

text \<open>
  Claim C7. On a migrated store, \<open>agreed_to_terms(user, None)\<close> returns \<open>False\<close> for
  every user and raises nothing: the lookup with \<open>terms=None\<close> finds no row, and
  \<open>DoesNotExist\<close> (or \<open>TypeError\<close> for a user that is no model instance) is turned
  into \<open>False\<close>.
\<close>

theorem agreed_to_terms_None:
  "agreed_to_terms (Tables ts uts) u PyNone = Inr False"
  by (cases u) (simp_all add: agreed_to_terms_def)

text \<open>
  Claim C9. Under the uniqueness constraint on (user, terms) the lookup never raises
  \<open>MultipleObjectsReturned\<close>, so the branch of \<open>agreed_to_latest\<close> that catches it is
  never taken and \<open>agreed_to_terms\<close>, which does not catch it, never raises it; on a
  store whose tables exist both checks end with a boolean.
\<close>

theorem unique_together_no_multiple:
  "unique_together db \<Longrightarrow>
     objects_get db u v \<noteq> Inl MultipleObjectsReturned \<and>
     agreed_to_terms db u v \<noteq> Inl MultipleObjectsReturned \<and>
     (db = Tables ts uts \<longrightarrow>
        (\<exists>b. agreed_to_terms db u v = Inr b) \<and>
        (\<exists>b. fst (agreed_to_latest now db st u s) = Inr b))"
proof -
  assume uq: "unique_together db"
  have a: "objects_get db u v \<noteq> Inl MultipleObjectsReturned" for u v
    using uq by (rule objects_get_not_multiple)
  have b: "agreed_to_terms db u v \<noteq> Inl MultipleObjectsReturned"
    using a[of u v] by (auto simp: agreed_to_terms_def split: sum.splits error.splits)
  have c: "(\<exists>b. agreed_to_terms db u v = Inr b) \<and>
        (\<exists>b. fst (agreed_to_latest now db st u s) = Inr b)" if db: "db = Tables ts uts"
  proof
    show "\<exists>b. agreed_to_terms db u v = Inr b"
      using a[of u v] objects_get_Tables_error[of ts uts u v] db
      by (auto simp: agreed_to_terms_def split: sum.splits error.splits)
    obtain w where w: "fst (get_active now db st s) = Inr w"
      using get_active_Tables_returns db by blast
    show "\<exists>b. fst (agreed_to_latest now db st u s) = Inr b"
      using a[of u w] objects_get_Tables_error[of ts uts u w] db w
      by (auto simp: agreed_to_latest_def split: sum.splits error.splits prod.splits)
  qed
  show ?thesis using a b c by blast
qed

theorem unique_together_no_multiple_witness:
  "unique_together (Tables [mk_terms 1 ''site-terms'' (Some 5)]
                           [mk_userterms 1 7 1, mk_userterms 2 8 1]) \<and>
   objects_get (Tables [mk_terms 1 ''site-terms'' (Some 5)]
                       [mk_userterms 1 7 1, mk_userterms 2 8 1])
               (User 7) (PyTerms (mk_terms 1 ''site-terms'' (Some 5)))
     \<noteq> Inl MultipleObjectsReturned \<and>
   (\<exists>b. agreed_to_terms (Tables [mk_terms 1 ''site-terms'' (Some 5)]
                                [mk_userterms 1 7 1, mk_userterms 2 8 1])
                        (User 7) (PyTerms (mk_terms 1 ''site-terms'' (Some 5))) = Inr b) \<and>
   (\<exists>b. fst (agreed_to_latest 10 (Tables [mk_terms 1 ''site-terms'' (Some 5)]
                                         [mk_userterms 1 7 1, mk_userterms 2 8 1])
                fresh_state (User 7) ''site-terms'') = Inr b)"
proof -
  have h: "unique_together (Tables [mk_terms 1 ''site-terms'' (Some 5)]
                                   [mk_userterms 1 7 1, mk_userterms 2 8 1])"
    by (simp add: mk_userterms_def)
  show ?thesis
    using h unique_together_no_multiple [OF h,
        of "User 7" "PyTerms (mk_terms 1 ''site-terms'' (Some 5))"
           "[mk_terms 1 ''site-terms'' (Some 5)]" "[mk_userterms 1 7 1, mk_userterms 2 8 1]"
           10 fresh_state "''site-terms''"]
    by simp
qed

text \<open>
  Claim C4. \<open>agreed_to_latest(user, slug)\<close> does what
  \<open>agreed_to_terms(user, get_active(slug))\<close> does, result and state, except that it
  answers \<open>True\<close> where the composition would raise \<open>MultipleObjectsReturned\<close>; under
  the uniqueness constraint the two agree everywhere. When \<open>get_active\<close> yields a version
  on a migrated store, the answer is \<open>True\<close> exactly when some acceptance row pairs the
  user with that version.
\<close>

theorem agreed_to_latest_refines:
  "agreed_to_latest now db st u s =
     (case agreed_to_terms_of_active now db st u s of
        (Inl MultipleObjectsReturned, st1) \<Rightarrow> (Inr True, st1)
      | r \<Rightarrow> r) \<and>
   (unique_together db \<longrightarrow>
      agreed_to_latest now db st u s = agreed_to_terms_of_active now db st u s) \<and>
   (fst (get_active now (Tables ts uts) st s) = Inr (PyTerms t) \<longrightarrow>
      fst (agreed_to_latest now (Tables ts uts) st (User uid) s) =
        Inr (\<exists>r \<in> set uts. user r = uid \<and> terms r = tc_id t))"
proof (intro conjI impI)
  obtain r st1 where Pair: "get_active now db st s = (r, st1)"
    by (cases "get_active now db st s")
  show eq: "agreed_to_latest now db st u s =
     (case agreed_to_terms_of_active now db st u s of
        (Inl MultipleObjectsReturned, st1) \<Rightarrow> (Inr True, st1)
      | r \<Rightarrow> r)"
  proof (cases r)
    case (Inl e)
    then have "e = ProgrammingError" using get_active_error[of now db st s e] Pair by simp
    then show ?thesis using Pair Inl
      by (simp add: agreed_to_latest_def agreed_to_terms_of_active_def)
  next
    case (Inr v)
    then show ?thesis using Pair
      by (simp add: agreed_to_latest_def agreed_to_terms_of_active_def agreed_to_terms_def
               split: sum.splits error.splits)
  qed
  show "agreed_to_latest now db st u s = agreed_to_terms_of_active now db st u s"
    if uq: "unique_together db"
  proof (cases r)
    case (Inl e)
    then have "e = ProgrammingError" using get_active_error[of now db st s e] Pair by simp
    then show ?thesis using Pair Inl
      by (simp add: agreed_to_latest_def agreed_to_terms_of_active_def)
  next
    case (Inr v)
    then show ?thesis using Pair objects_get_not_multiple[OF uq, of u v]
      by (simp add: agreed_to_latest_def agreed_to_terms_of_active_def agreed_to_terms_def
               split: sum.splits error.splits)
  qed
  show "fst (agreed_to_latest now (Tables ts uts) st (User uid) s) =
        Inr (\<exists>r \<in> set uts. user r = uid \<and> terms r = tc_id t)"
    if g: "fst (get_active now (Tables ts uts) st s) = Inr (PyTerms t)"
  proof -
    obtain st2 where p: "get_active now (Tables ts uts) st s = (Inr (PyTerms t), st2)"
      using g by (cases "get_active now (Tables ts uts) st s") simp
    show ?thesis using p by (rule agreed_to_latest_iff_row)
  qed
qed

theorem agreed_to_latest_refines_witness:
  "unique_together (Tables [mk_terms 1 ''site-terms'' (Some 5)] [mk_userterms 1 7 1]) \<and>
   fst (get_active 10 (Tables [mk_terms 1 ''site-terms'' (Some 5)] [mk_userterms 1 7 1])
          fresh_state ''site-terms'') = Inr (PyTerms (mk_terms 1 ''site-terms'' (Some 5))) \<and>
   agreed_to_latest 10 (Tables [mk_terms 1 ''site-terms'' (Some 5)] [mk_userterms 1 7 1])
       fresh_state (User 7) ''site-terms'' =
     agreed_to_terms_of_active 10
       (Tables [mk_terms 1 ''site-terms'' (Some 5)] [mk_userterms 1 7 1])
       fresh_state (User 7) ''site-terms'' \<and>
   fst (agreed_to_latest 10 (Tables [mk_terms 1 ''site-terms'' (Some 5)] [mk_userterms 1 7 1])
          fresh_state (User 7) ''site-terms'') = Inr True \<and>
   fst (agreed_to_latest 10 (Tables [mk_terms 1 ''site-terms'' (Some 5)] [mk_userterms 1 7 1])
          fresh_state (User 8) ''site-terms'') = Inr False"
proof -
  have h: "unique_together (Tables [mk_terms 1 ''site-terms'' (Some 5)] [mk_userterms 1 7 1])"
    by simp
  have g: "fst (get_active 10 (Tables [mk_terms 1 ''site-terms'' (Some 5)] [mk_userterms 1 7 1])
          fresh_state ''site-terms'') = Inr (PyTerms (mk_terms 1 ''site-terms'' (Some 5)))"
    by (simp add: get_active_def cache_get_def fresh_state_def latest_active_def mk_terms_def)
  show ?thesis
    using h g
      agreed_to_latest_refines [of 10
        "Tables [mk_terms 1 ''site-terms'' (Some 5)] [mk_userterms 1 7 1]" fresh_state
        "User 7" "''site-terms''" "[mk_terms 1 ''site-terms'' (Some 5)]" "[mk_userterms 1 7 1]"
        "mk_terms 1 ''site-terms'' (Some 5)" 7]
      agreed_to_latest_refines [of 10
        "Tables [mk_terms 1 ''site-terms'' (Some 5)] [mk_userterms 1 7 1]" fresh_state
        "User 7" "''site-terms''" "[mk_terms 1 ''site-terms'' (Some 5)]" "[mk_userterms 1 7 1]"
        "mk_terms 1 ''site-terms'' (Some 5)" 8]
    by (simp add: agreed_to_latest_def agreed_to_terms_of_active_def agreed_to_terms_def
          get_active_def cache_get_def fresh_state_def latest_active_def
          mk_terms_def mk_userterms_def)
qed

section \<open>The active version of a slug\<close>

lemma max_by_date_in: "max_by_date b ts \<in> set (b # ts)"
  by (induction ts arbitrary: b) auto

lemma max_by_date_ge: "t \<in> set (b # ts) \<Longrightarrow> date_active t \<le> date_active (max_by_date b ts)"
proof (induction ts arbitrary: b t)
  case Nil
  then show ?case by simp
next
  case (Cons a ts)
  let ?b = "if date_active b < date_active a then a else b"
  have b: "date_active b \<le> date_active (max_by_date ?b ts)"
  proof -
    have "date_active b \<le> date_active ?b" by (simp add: less_imp_le)
    also have "\<dots> \<le> date_active (max_by_date ?b ts)" by (rule Cons.IH) simp
    finally show ?thesis .
  qed
  have a: "date_active a \<le> date_active (max_by_date ?b ts)"
  proof -
    have "date_active a \<le> date_active ?b" by (simp add: not_less)
    also have "\<dots> \<le> date_active (max_by_date ?b ts)" by (rule Cons.IH) simp
    finally show ?thesis .
  qed
  from Cons.prems consider "t = b" | "t = a" | "t \<in> set (?b # ts)" by auto
  then show ?case
  proof cases
    case 1 then show ?thesis using b by simp
  next
    case 2 then show ?thesis using a by simp
  next
    case 3 then show ?thesis using Cons.IH[OF 3] by simp
  qed
qed

lemma activated_iff:
  "activated now t \<longleftrightarrow> (date_active t \<noteq> None \<and> date_active t \<le> Some now)"
  by (cases "date_active t") (simp_all add: activated_def)

lemma latest_active_Tables:
  assumes "\<exists>t \<in> set ts. slug t = s \<and> activated now t"
  shows "\<exists>t. latest_active now (Tables ts uts) s = Inr t \<and> t \<in> set ts \<and> slug t = s \<and>
             activated now t \<and>
             (\<forall>t' \<in> set ts. slug t' = s \<and> activated now t' \<longrightarrow> date_active t' \<le> date_active t)"
proof -
  let ?P = "\<lambda>t. date_active t \<noteq> None \<and> date_active t \<le> Some now \<and> slug t = s"
  from assms have "filter ?P ts \<noteq> []"
    by (auto simp: filter_empty_conv activated_iff)
  then obtain c cs where f: "filter ?P ts = c # cs" by (cases "filter ?P ts") auto
  let ?m = "max_by_date c cs"
  have m_in: "?m \<in> set (filter ?P ts)" unfolding f by (rule max_by_date_in)
  have ge: "date_active t' \<le> date_active ?m"
    if "t' \<in> set ts" "slug t' = s" "activated now t'" for t'
  proof -
    from that have "t' \<in> set (filter ?P ts)" by (simp add: activated_iff)
    then have "t' \<in> set (c # cs)" unfolding f .
    then show ?thesis by (rule max_by_date_ge)
  qed
  have "latest_active now (Tables ts uts) s = Inr ?m"
    by (simp only: latest_active_def database.case f list.case)
  moreover have "?m \<in> set ts" "slug ?m = s" "activated now ?m"
    using m_in by (simp_all add: activated_iff)
  ultimately show ?thesis using ge by blast
qed

lemma latest_active_none:
  assumes "\<not> (\<exists>t \<in> set ts. slug t = s \<and> activated now t)"
  shows "latest_active now (Tables ts uts) s = Inl DoesNotExist"
proof -
  let ?P = "\<lambda>t. date_active t \<noteq> None \<and> date_active t \<le> Some now \<and> slug t = s"
  from assms have "filter ?P ts = []"
    by (auto simp: filter_empty_conv activated_iff)
  then show ?thesis by (simp only: latest_active_def database.case list.case)
qed

text \<open>
  Claim C1, as amended. When nothing, or only an empty value, is cached under the slug's
  key, \<open>get_active(slug)\<close> on a migrated store returns a version of that slug that is
  activated and whose \<open>date_active\<close> is greatest among the activated versions of the slug;
  in particular, when the versions of the slug have the activation dates null, \<open>t1\<close> and
  \<open>t2\<close> with \<open>t1 < t2 \<le> now\<close>, it returns a version with \<open>date_active = t2\<close>.
\<close>

theorem get_active_latest_on_miss:
  assumes miss: "\<not> truthy (cache_get st (''tandc.active_terms_'' @ s))"
  shows "((\<exists>t \<in> set ts. slug t = s \<and> activated now t) \<longrightarrow>
          (\<exists>t. fst (get_active now (Tables ts uts) st s) = Inr (PyTerms t) \<and>
               t \<in> set ts \<and> slug t = s \<and> activated now t \<and>
               (\<forall>t' \<in> set ts. slug t' = s \<and> activated now t' \<longrightarrow>
                   date_active t' \<le> date_active t))) \<and>
         (set (map date_active (filter (\<lambda>t. slug t = s) ts)) = {None, Some t1, Some t2} \<and>
          t1 < t2 \<and> t2 \<le> now \<longrightarrow>
          (\<exists>t. fst (get_active now (Tables ts uts) st s) = Inr (PyTerms t) \<and>
               t \<in> set ts \<and> slug t = s \<and> date_active t = Some t2))"
proof (intro conjI impI)
  have gen: "\<exists>t. fst (get_active now (Tables ts uts) st s) = Inr (PyTerms t) \<and>
               t \<in> set ts \<and> slug t = s \<and> activated now t \<and>
               (\<forall>t' \<in> set ts. slug t' = s \<and> activated now t' \<longrightarrow>
                   date_active t' \<le> date_active t)"
    if ex: "\<exists>t \<in> set ts. slug t = s \<and> activated now t"
  proof -
    from latest_active_Tables[OF ex, of uts] obtain t where
      t: "latest_active now (Tables ts uts) s = Inr t" "t \<in> set ts" "slug t = s" "activated now t"
         "\<forall>t' \<in> set ts. slug t' = s \<and> activated now t' \<longrightarrow> date_active t' \<le> date_active t"
      by blast
    have "fst (get_active now (Tables ts uts) st s) = Inr (PyTerms t)"
      using miss t(1) by (simp add: get_active_def)
    then show ?thesis using t by blast
  qed
  show "\<exists>t. fst (get_active now (Tables ts uts) st s) = Inr (PyTerms t) \<and>
               t \<in> set ts \<and> slug t = s \<and> activated now t \<and>
               (\<forall>t' \<in> set ts. slug t' = s \<and> activated now t' \<longrightarrow>
                   date_active t' \<le> date_active t)"
    if "\<exists>t \<in> set ts. slug t = s \<and> activated now t"
    using that by (rule gen)
  show "\<exists>t. fst (get_active now (Tables ts uts) st s) = Inr (PyTerms t) \<and>
               t \<in> set ts \<and> slug t = s \<and> date_active t = Some t2"
    if h: "set (map date_active (filter (\<lambda>t. slug t = s) ts)) = {None, Some t1, Some t2} \<and>
           t1 < t2 \<and> t2 \<le> now"
  proof -
    from h have img: "set (map date_active (filter (\<lambda>t. slug t = s) ts)) = {None, Some t1, Some t2}"
      and lt: "t1 < t2" and le: "t2 \<le> now" by simp_all
    have "Some t2 \<in> set (map date_active (filter (\<lambda>t. slug t = s) ts))" using img by simp
    then obtain r where r: "r \<in> set ts" "slug r = s" "date_active r = Some t2" by auto
    then have ra: "activated now r" using le by (simp add: activated_def)
    then have "\<exists>t \<in> set ts. slug t = s \<and> activated now t" using r by blast
    from gen[OF this] obtain t where
      t: "fst (get_active now (Tables ts uts) st s) = Inr (PyTerms t)" "t \<in> set ts" "slug t = s"
         "activated now t"
         "\<forall>t' \<in> set ts. slug t' = s \<and> activated now t' \<longrightarrow> date_active t' \<le> date_active t"
      by blast
    have ge: "Some t2 \<le> date_active t" using t(5) r ra by auto
    have "date_active t \<in> set (map date_active (filter (\<lambda>t. slug t = s) ts))"
      using t(2,3) by simp
    then have "date_active t \<in> {None, Some t1, Some t2}" using img by simp
    then have "date_active t = Some t2" using ge lt by auto
    then show ?thesis using t by blast
  qed
qed

theorem get_active_latest_on_miss_witness:
  "\<not> truthy (cache_get fresh_state (''tandc.active_terms_'' @ ''site-terms'')) \<and>
   set (map date_active (filter (\<lambda>t. slug t = ''site-terms'')
          [mk_terms 1 ''site-terms'' None, mk_terms 2 ''site-terms'' (Some 5),
           mk_terms 3 ''site-terms'' (Some 9), mk_terms 4 ''privacy'' (Some 8)])) =
     {None, Some 5, Some 9} \<and> (5::int) < 9 \<and> (9::int) \<le> 10 \<and>
   fst (get_active 10
         (Tables [mk_terms 1 ''site-terms'' None, mk_terms 2 ''site-terms'' (Some 5),
                  mk_terms 3 ''site-terms'' (Some 9), mk_terms 4 ''privacy'' (Some 8)] [])
         fresh_state ''site-terms'') = Inr (PyTerms (mk_terms 3 ''site-terms'' (Some 9)))"
proof -
  let ?ts = "[mk_terms 1 ''site-terms'' None, mk_terms 2 ''site-terms'' (Some 5),
              mk_terms 3 ''site-terms'' (Some 9), mk_terms 4 ''privacy'' (Some 8)]"
  have miss: "\<not> truthy (cache_get fresh_state (''tandc.active_terms_'' @ ''site-terms''))"
    by (simp add: cache_get_def fresh_state_def)
  have img: "set (map date_active (filter (\<lambda>t. slug t = ''site-terms'') ?ts)) =
       {None, Some 5, Some 9}"
    by (simp add: mk_terms_def)
  from get_active_latest_on_miss [OF miss, of ?ts 10 "[]" 5 9] img
  have "\<exists>t. fst (get_active 10 (Tables ?ts []) fresh_state ''site-terms'') = Inr (PyTerms t) \<and>
         t \<in> set ?ts \<and> slug t = ''site-terms'' \<and> date_active t = Some 9"
    by simp
  then have "fst (get_active 10 (Tables ?ts []) fresh_state ''site-terms'') =
      Inr (PyTerms (mk_terms 3 ''site-terms'' (Some 9)))"
    by (auto simp: mk_terms_def)
  then show ?thesis using miss img by simp
qed

text \<open>
  The claim as stated fails when an earlier call has filled the cache: between the two
  activation dates \<open>get_active\<close> caches the older version, and after the later date has
  passed it still answers with the cached one, on the same store.
\<close>

theorem get_active_stale_cache:
  "set (map date_active (filter (\<lambda>t. slug t = ''site-terms'')
          [mk_terms 1 ''site-terms'' None, mk_terms 2 ''site-terms'' (Some 5),
           mk_terms 3 ''site-terms'' (Some 9)])) = {None, Some 5, Some 9} \<and>
   (5::int) < 9 \<and> (9::int) \<le> 10 \<and>
   fst (get_active 10
         (Tables [mk_terms 1 ''site-terms'' None, mk_terms 2 ''site-terms'' (Some 5),
                  mk_terms 3 ''site-terms'' (Some 9)] [])
         (snd (get_active 7
                (Tables [mk_terms 1 ''site-terms'' None, mk_terms 2 ''site-terms'' (Some 5),
                         mk_terms 3 ''site-terms'' (Some 9)] [])
                fresh_state ''site-terms''))
         ''site-terms'') = Inr (PyTerms (mk_terms 2 ''site-terms'' (Some 5))) \<and>
   date_active (mk_terms 2 ''site-terms'' (Some 5)) \<noteq> Some 9"
  by (simp add: get_active_def cache_get_def cache_set_def fresh_state_def latest_active_def
        mk_terms_def Let_def)

text \<open>
  Claim C8, as amended. When nothing, or only an empty value, is cached under the slug's
  key and no version of the slug is activated, \<open>get_active(slug)\<close> on a migrated store
  returns \<open>None\<close>, logs one error and leaves the cache as it was.
\<close>

theorem get_active_none_on_miss:
  assumes miss: "\<not> truthy (cache_get st (''tandc.active_terms_'' @ s))"
      and none: "\<not> (\<exists>t \<in> set ts. slug t = s \<and> activated now t)"
  shows "get_active now (Tables ts uts) st s =
           (Inr PyNone,
            st\<lparr>logged := logged st @
                 [(ERROR, ''Requested Terms and Conditions that Have Not Been Created.'')]\<rparr>)"
  using miss latest_active_none[OF none, of uts]
  by (simp add: get_active_def LOGGER_error_def)

theorem get_active_none_on_miss_witness:
  "\<not> truthy (cache_get fresh_state (''tandc.active_terms_'' @ ''site-terms'')) \<and>
   \<not> (\<exists>t \<in> set [mk_terms 1 ''site-terms'' None, mk_terms 2 ''site-terms'' (Some 20),
                   mk_terms 3 ''privacy'' (Some 5)].
         slug t = ''site-terms'' \<and> activated 10 t) \<and>
   fst (get_active 10
     (Tables [mk_terms 1 ''site-terms'' None, mk_terms 2 ''site-terms'' (Some 20),
              mk_terms 3 ''privacy'' (Some 5)] []) fresh_state ''site-terms'') = Inr PyNone \<and>
   logged (snd (get_active 10
     (Tables [mk_terms 1 ''site-terms'' None, mk_terms 2 ''site-terms'' (Some 20),
              mk_terms 3 ''privacy'' (Some 5)] []) fresh_state ''site-terms'')) =
     [(ERROR, ''Requested Terms and Conditions that Have Not Been Created.'')]"
proof -
  have miss: "\<not> truthy (cache_get fresh_state (''tandc.active_terms_'' @ ''site-terms''))"
    by (simp add: cache_get_def fresh_state_def)
  have none: "\<not> (\<exists>t \<in> set [mk_terms 1 ''site-terms'' None, mk_terms 2 ''site-terms'' (Some 20),
                   mk_terms 3 ''privacy'' (Some 5)].
         slug t = ''site-terms'' \<and> activated 10 t)"
    by (simp add: activated_def mk_terms_def)
  show ?thesis
    using miss none get_active_none_on_miss [OF miss none, of "[]"]
    by (simp add: fresh_state_def)
qed

text \<open>
  The claim as stated fails when the cache still holds a version that has since been
  deactivated: the slug has no activated version, yet the cached row is returned and
  nothing is logged.
\<close>

theorem get_active_stale_after_deactivation:
  "\<not> (\<exists>t \<in> set [mk_terms 1 ''site-terms'' None]. slug t = ''site-terms'' \<and> activated 10 t) \<and>
   get_active 10 (Tables [mk_terms 1 ''site-terms'' None] [])
     (snd (get_active 10 (Tables [mk_terms 1 ''site-terms'' (Some 5)] []) fresh_state
             ''site-terms''))
     ''site-terms'' =
   (Inr (PyTerms (mk_terms 1 ''site-terms'' (Some 5))),
    snd (get_active 10 (Tables [mk_terms 1 ''site-terms'' (Some 5)] []) fresh_state
           ''site-terms'')) \<and>
   logged (snd (get_active 10 (Tables [mk_terms 1 ''site-terms'' (Some 5)] []) fresh_state
                  ''site-terms'')) = []"
  by (simp add: get_active_def cache_get_def cache_set_def fresh_state_def latest_active_def
        mk_terms_def activated_def Let_def)

section \<open>The cache\<close>

lemma cache_get_cache_set [simp]:
  "cache_get (cache_set st k v) k' = (if k' = k then v else cache_get st k')"
  by (simp add: cache_get_def cache_set_def)

lemma cache_get_LOGGER [simp]:
  "cache_get (LOGGER_warning st m) k = cache_get st k"
  "cache_get (LOGGER_error st m) k = cache_get st k"
  by (simp_all add: cache_get_def LOGGER_warning_def LOGGER_error_def)


lemma not_agreed_hit:
  "truthy (cache_get st ''tandc_not_agreed_terms'') \<Longrightarrow>
     get_active_terms_not_agreed_to bare_id now db st u =
       (Inr (cache_get st ''tandc_not_agreed_terms''), st)"
  by (simp add: get_active_terms_not_agreed_to_def Let_def)

lemma not_agreed_truthy_cached:
  assumes "get_active_terms_not_agreed_to bare_id now db st u = (Inr v, st1)" and "truthy v"
  shows "cache_get st1 ''tandc_not_agreed_terms'' = v"
proof (cases "truthy (cache_get st ''tandc_not_agreed_terms'')")
  case True
  then show ?thesis using assms(1) by (auto simp: not_agreed_hit)
next
  case False
  then show ?thesis using assms
    by (auto simp: get_active_terms_not_agreed_to_def Let_def
             split: prod.splits sum.splits error.splits user_arg.splits)
qed





lemma cache_get_drop [simp]:
  "cache_get (st\<lparr>cache := (cache st)(k := None)\<rparr>) k' = (if k' = k then PyNone else cache_get st k')"
  by (simp add: cache_get_def)

lemma cache_get_fresh [simp]: "cache_get fresh_state k = PyNone"
  by (simp add: cache_get_def fresh_state_def)









lemmas eval_defs = get_active_terms_not_agreed_to_def get_active_terms_ids_def get_active_terms_list_def
  raw_active_ids_def filter_id_in_def filter_id_in_exclude_userterms_def sqlite_bare_id_def first_row_bare_id_def
  cache_get_def cache_set_def fresh_state_def LOGGER_warning_def LOGGER_error_def
  mk_terms_def mk_userterms_def Let_def get_active_def latest_active_def cached_empties_def


text \<open>
  Claim C6. The key \<open>tandc_not_agreed_terms\<close> does not mention the user: once a call of
  \<open>get_active_terms_not_agreed_to\<close> for one user has returned a non-empty result, a call
  for any user, at any later time and on any store, returns that same result and leaves
  the state as it is.
\<close>

theorem not_agreed_cache_shared_between_users:
  assumes "get_active_terms_not_agreed_to bare_id now db st a = (Inr v, st1)" and "truthy v"
  shows "get_active_terms_not_agreed_to bare_id' now' db' st1 b = (Inr v, st1)"
proof -
  have "cache_get st1 ''tandc_not_agreed_terms'' = v"
    using assms by (rule not_agreed_truthy_cached)
  then show ?thesis using assms(2) not_agreed_hit[of st1 bare_id' now' db' b] by simp
qed

theorem not_agreed_cache_shared_between_users_witness:
  "fst (get_active_terms_not_agreed_to sqlite_bare_id 10
    (Tables [mk_terms 1 ''site-terms'' (Some 5), mk_terms 2 ''privacy'' (Some 6)] [mk_userterms 1 7 1])
    fresh_state (User 8)) = Inr (PyQuerySet [mk_terms 2 ''privacy'' (Some 6), mk_terms 1 ''site-terms'' (Some 5)]) \<and>
   truthy (PyQuerySet [mk_terms 2 ''privacy'' (Some 6), mk_terms 1 ''site-terms'' (Some 5)]) \<and>
   fst (get_active_terms_not_agreed_to sqlite_bare_id 10
    (Tables [mk_terms 1 ''site-terms'' (Some 5), mk_terms 2 ''privacy'' (Some 6)] [mk_userterms 1 7 1])
    (snd (get_active_terms_not_agreed_to sqlite_bare_id 10
    (Tables [mk_terms 1 ''site-terms'' (Some 5), mk_terms 2 ''privacy'' (Some 6)] [mk_userterms 1 7 1])
    fresh_state (User 8))) (User 7)) = Inr (PyQuerySet [mk_terms 2 ''privacy'' (Some 6), mk_terms 1 ''site-terms'' (Some 5)])"
proof -
  let ?D = "Tables [mk_terms 1 ''site-terms'' (Some 5), mk_terms 2 ''privacy'' (Some 6)] [mk_userterms 1 7 1]"
  let ?v = "PyQuerySet [mk_terms 2 ''privacy'' (Some 6), mk_terms 1 ''site-terms'' (Some 5)]"
  have a: "get_active_terms_not_agreed_to sqlite_bare_id 10 ?D fresh_state (User 8) =
      (Inr ?v, snd (get_active_terms_not_agreed_to sqlite_bare_id 10 ?D fresh_state (User 8)))"
    by (simp add: eval_defs del: set_filter)
  have t: "truthy ?v" by simp
  from not_agreed_cache_shared_between_users [OF a t, of sqlite_bare_id 10 ?D "User 7"] show ?thesis using a t
    by (metis fst_conv)
qed




section \<open>The active versions of all slugs\<close>

lemma ids_miss_Tables:
  "\<not> truthy (cache_get st ''tandc.active_terms_ids'') \<Longrightarrow>
   fst (get_active_terms_ids bare_id now (Tables ts uts) st) =
     Inr (PyIds (map (\<lambda>s. bare_id (filter (\<lambda>t. slug t = s)
                          (filter (\<lambda>t. date_active t \<noteq> None \<and> date_active t < Some now) ts)))
                (sort (remdups (map slug
                          (filter (\<lambda>t. date_active t \<noteq> None \<and> date_active t < Some now) ts))))))"
  by (simp add: get_active_terms_ids_def raw_active_ids_def Let_def)

lemma strict_iff_activated:
  assumes "date_active t \<noteq> Some now"
  shows "(date_active t \<noteq> None \<and> date_active t < Some now) \<longleftrightarrow> activated now t"
  using assms by (cases "date_active t") (auto simp: activated_def)

lemma mem_nonempty: "x \<in> set xs \<Longrightarrow> xs \<noteq> []"
  by auto


lemma sqlite_reads_max_row: "reads_max_row sqlite_bare_id"
  unfolding reads_max_row_def
proof (intro allI impI)
  fix g :: "TermsAndConditions list" assume "g \<noteq> []"
  then obtain c cs where g: "g = c # cs" by (cases g) auto
  have "max_by_date c cs \<in> set g" unfolding g by (rule max_by_date_in)
  moreover have "sqlite_bare_id g = tc_id (max_by_date c cs)" by (simp add: g sqlite_bare_id_def)
  moreover have "\<forall>t' \<in> set g. date_active t' \<le> date_active (max_by_date c cs)"
    unfolding g using max_by_date_ge by blast
  ultimately show "\<exists>t \<in> set g. sqlite_bare_id g = tc_id t \<and> (\<forall>t' \<in> set g. date_active t' \<le> date_active t)"
    by blast
qed

lemma ex_conj1: "\<exists>x. P x \<and> Q x \<Longrightarrow> \<exists>x. P x"
  by blast


text \<open>
  Claim C2, as amended. When nothing, or only an empty list, is cached under
  \<open>tandc.active_terms_ids\<close>, the engine reads the bare \<open>id\<close> from a row attaining the
  group's \<open>max(date_active)\<close>, and no version is activated at exactly \<open>now\<close>,
  \<open>get_active_terms_ids()\<close> on a migrated store returns the ids of rows \<open>rs\<close> of the
  table, one per slug that has an activated version, in the order of the slugs, each
  activated and of greatest \<open>date_active\<close> among the activated versions of its slug.
\<close>

theorem get_active_terms_ids_group_max:
  assumes miss: "\<not> truthy (cache_get st ''tandc.active_terms_ids'')"
      and engine: "reads_max_row bare_id"
      and nb: "Some now \<notin> set (map date_active ts)"
  shows "\<exists>rs. fst (get_active_terms_ids bare_id now (Tables ts uts) st) = Inr (PyIds (map tc_id rs)) \<and>
           set rs \<subseteq> set ts \<and> sorted (map slug rs) \<and> distinct (map slug rs) \<and>
           set (map slug rs) = slug ` {t \<in> set ts. activated now t} \<and>
           (\<forall>r \<in> set rs. activated now r \<and>
              (\<forall>t \<in> set ts. slug t = slug r \<and> activated now t \<longrightarrow>
                  date_active t \<le> date_active r))"
proof -
  define act where "act = filter (\<lambda>t. date_active t \<noteq> None \<and> date_active t < Some now) ts"
  define slugs where "slugs = sort (remdups (map slug act))"
  define g where "g = (\<lambda>s. filter (\<lambda>t. slug t = s) act)"
  have act: "t \<in> set act \<longleftrightarrow> t \<in> set ts \<and> activated now t" for t
  proof -
    have "date_active t \<noteq> Some now" if "t \<in> set ts"
      using nb that by (metis image_eqI list.set_map)
    then show ?thesis unfolding act_def using strict_iff_activated[of t now] by auto
  qed
  have g_mem: "t \<in> set (g s) \<longleftrightarrow> t \<in> set act \<and> slug t = s" for t s
    unfolding g_def by auto
  have slugs_set: "set slugs = slug ` set act" unfolding slugs_def by simp
  have slugs_sorted: "sorted slugs" unfolding slugs_def by simp
  have slugs_distinct: "distinct slugs" unfolding slugs_def by simp
  from engine have "\<forall>g. \<exists>t. g \<noteq> [] \<longrightarrow>
      t \<in> set g \<and> bare_id g = tc_id t \<and> (\<forall>t' \<in> set g. date_active t' \<le> date_active t)"
    unfolding reads_max_row_def by blast
  then obtain f where f: "\<And>g. g \<noteq> [] \<Longrightarrow>
      f g \<in> set g \<and> bare_id g = tc_id (f g) \<and> (\<forall>t' \<in> set g. date_active t' \<le> date_active (f g))"
    by metis
  define rs where "rs = map (\<lambda>s. f (g s)) slugs"
  have ne: "g s \<noteq> []" if "s \<in> set slugs" for s
  proof -
    from that obtain t where "t \<in> set act" "slug t = s" unfolding slugs_set by blast
    then have "t \<in> set (g s)" using g_mem by simp
    then show ?thesis by (rule mem_nonempty)
  qed
  have fg: "f (g s) \<in> set (g s)" "bare_id (g s) = tc_id (f (g s))"
    "\<And>t'. t' \<in> set (g s) \<Longrightarrow> date_active t' \<le> date_active (f (g s))"
    if "s \<in> set slugs" for s
    using f[OF ne[OF that]] by blast+
  have slug_f: "slug (f (g s)) = s" if "s \<in> set slugs" for s
    using fg(1)[OF that] g_mem by simp
  have in_act: "f (g s) \<in> set act" if "s \<in> set slugs" for s
    using fg(1)[OF that] g_mem by simp
  have ids: "map (\<lambda>s. bare_id (g s)) slugs = map tc_id rs"
  proof -
    have "map tc_id rs = map (\<lambda>s. tc_id (f (g s))) slugs"
      unfolding rs_def by (simp only: map_map comp_def)
    also have "\<dots> = map (\<lambda>s. bare_id (g s)) slugs"
      by (rule map_cong[OF refl]) (simp only: fg(2))
    finally show ?thesis by (rule sym)
  qed
  have slugs_rs: "map slug rs = slugs"
  proof -
    have "map slug rs = map (\<lambda>s. slug (f (g s))) slugs"
      unfolding rs_def by (simp only: map_map comp_def)
    also have "\<dots> = map (\<lambda>s. s) slugs"
      by (rule map_cong[OF refl]) (rule slug_f)
    finally show ?thesis by (simp only: list.map_ident)
  qed
  have "fst (get_active_terms_ids bare_id now (Tables ts uts) st) =
          Inr (PyIds (map (\<lambda>s. bare_id (g s)) slugs))"
    unfolding g_def slugs_def act_def using miss by (rule ids_miss_Tables)
  then have res: "fst (get_active_terms_ids bare_id now (Tables ts uts) st) =
      Inr (PyIds (map tc_id rs))"
    unfolding ids .
  have rs_mem: "\<exists>s. s \<in> set slugs \<and> r = f (g s)" if "r \<in> set rs" for r
    using that unfolding rs_def by auto
  have sub: "set rs \<subseteq> set ts"
  proof
    fix r assume "r \<in> set rs"
    then obtain s where "s \<in> set slugs" "r = f (g s)" using rs_mem by blast
    then have "r \<in> set act" using in_act by simp
    then show "r \<in> set ts" using act by simp
  qed
  have sorted: "sorted (map slug rs)" unfolding slugs_rs by (rule slugs_sorted)
  have dist: "distinct (map slug rs)" unfolding slugs_rs by (rule slugs_distinct)
  have sset: "set (map slug rs) = slug ` {t \<in> set ts. activated now t}"
  proof -
    have "set act = {t \<in> set ts. activated now t}" using act by blast
    then show ?thesis unfolding slugs_rs slugs_set by simp
  qed
  have mx: "activated now r \<and>
      (\<forall>t \<in> set ts. slug t = slug r \<and> activated now t \<longrightarrow> date_active t \<le> date_active r)"
    if "r \<in> set rs" for r
  proof -
    from that obtain s where s: "s \<in> set slugs" "r = f (g s)" using rs_mem by blast
    have ra: "r \<in> set act" using in_act s by simp
    have rsl: "slug r = s" using slug_f s by simp
    have "date_active t \<le> date_active r" if "t \<in> set ts" "slug t = slug r" "activated now t" for t
    proof -
      from that have "t \<in> set act" using act by simp
      then have "t \<in> set (g s)" using that(2) rsl g_mem by simp
      then show ?thesis using fg(3)[OF s(1)] s(2) by simp
    qed
    then show ?thesis using ra act by blast
  qed
  show ?thesis
    using res sub sorted dist sset mx by blast
qed


theorem get_active_terms_ids_group_max_witness:
  "\<not> truthy (cache_get fresh_state ''tandc.active_terms_ids'') \<and>
   reads_max_row sqlite_bare_id \<and>
   Some 10 \<notin> set (map date_active
     [mk_terms 1 ''site-terms'' (Some 5), mk_terms 2 ''privacy'' (Some 6),
      mk_terms 3 ''site-terms'' (Some 8), mk_terms 4 ''site-terms'' (Some 12),
      mk_terms 5 ''site-terms'' None, mk_terms 6 ''draft'' None]) \<and>
   fst (get_active_terms_ids sqlite_bare_id 10
     (Tables [mk_terms 1 ''site-terms'' (Some 5), mk_terms 2 ''privacy'' (Some 6),
              mk_terms 3 ''site-terms'' (Some 8), mk_terms 4 ''site-terms'' (Some 12),
              mk_terms 5 ''site-terms'' None, mk_terms 6 ''draft'' None] [])
     fresh_state) = Inr (PyIds [2, 3])"
proof -
  let ?ts = "[mk_terms 1 ''site-terms'' (Some 5), mk_terms 2 ''privacy'' (Some 6),
              mk_terms 3 ''site-terms'' (Some 8), mk_terms 4 ''site-terms'' (Some 12),
              mk_terms 5 ''site-terms'' None, mk_terms 6 ''draft'' None]"
  have miss: "\<not> truthy (cache_get fresh_state ''tandc.active_terms_ids'')" by simp
  have nb: "Some 10 \<notin> set (map date_active ?ts)" by (simp add: mk_terms_def)
  have ev: "fst (get_active_terms_ids sqlite_bare_id 10 (Tables ?ts []) fresh_state) =
      Inr (PyIds [2, 3])"
    by (simp add: eval_defs del: set_filter)
  note ex = ex_conj1 [OF get_active_terms_ids_group_max [OF miss sqlite_reads_max_row nb, of "[]"]]
  show ?thesis using ex miss nb ev sqlite_reads_max_row by (intro conjI)
qed


text \<open>
  The claim as stated fails in three ways: a version activated at exactly \<open>now\<close> is left
  out, because the query compares with \<open><\<close>; a list cached before a second slug
  became active is served afterwards; and an engine that reads the bare \<open>id\<close> from the
  first row of a group reports a row that does not attain the maximum.
\<close>

theorem get_active_terms_ids_counterexample:
  "activated 10 (mk_terms 1 ''site-terms'' (Some 10)) \<and>
   fst (get_active_terms_ids sqlite_bare_id 10
          (Tables [mk_terms 1 ''site-terms'' (Some 10)] []) fresh_state) = Inr (PyIds []) \<and>
   activated 10 (mk_terms 2 ''privacy'' (Some 8)) \<and>
   fst (get_active_terms_ids sqlite_bare_id 10
          (Tables [mk_terms 1 ''site-terms'' (Some 5), mk_terms 2 ''privacy'' (Some 8)] [])
          (snd (get_active_terms_ids sqlite_bare_id 7
                  (Tables [mk_terms 1 ''site-terms'' (Some 5), mk_terms 2 ''privacy'' (Some 8)] [])
                  fresh_state))) = Inr (PyIds [1]) \<and>
   fst (get_active_terms_ids first_row_bare_id 10
          (Tables [mk_terms 1 ''site-terms'' (Some 5), mk_terms 2 ''site-terms'' (Some 8)] [])
          fresh_state) = Inr (PyIds [1])"
  by (simp add: eval_defs activated_def del: set_filter)

section \<open>The active versions a user has not agreed to\<close>








end
